theory Spec2Isabelle
  imports Main
begin

section \<open>Errors\<close>

text \<open>
  Every exception of \<^verbatim>\<open>main.py\<close> is a value. \<open>HTTPException\<close> carries the
  status code and the detail string of the source. \<open>TransportError\<close> stands for whatever
  \<^verbatim>\<open>websocket.accept()\<close> raises when the handshake fails, \<open>OverflowError\<close> for the
  exception of Python's \<^verbatim>\<open>datetime\<close> arithmetic when a result leaves its range.
\<close>

datatype error =
    HTTPException nat string
  | TransportError
  | OverflowError

section \<open>ConnectionManager\<close>

text \<open>
  A \<^verbatim>\<open>WebSocket\<close> object is modelled by its identity: Starlette compares connections
  with \<^verbatim>\<open>object.__eq__\<close>, so \<^verbatim>\<open>websocket in conns\<close> and
  \<^verbatim>\<open>conns.remove(websocket)\<close> compare identities.
  \<^verbatim>\<open>self.active: dict[str, list[WebSocket]]\<close> is a map from product identifiers to
  lists of connections; the list keeps the order of registration and may hold the same
  connection several times.
\<close>

type_synonym ws = nat

type_synonym registry = "string \<rightharpoonup> ws list"

text \<open>\<^verbatim>\<open>self.active.get(product_id, [])\<close>\<close>

definition get_active :: "registry \<Rightarrow> string \<Rightarrow> ws list" where
  "get_active active product_id =
     (case active product_id of None \<Rightarrow> [] | Some conns \<Rightarrow> conns)"

text \<open>
  \<^verbatim>\<open>
  async def connect(self, product_id, websocket):
      await websocket.accept()
      self.active.setdefault(product_id, []).append(websocket)
  \<close>
  The first argument says whether \<^verbatim>\<open>accept()\<close> went through; when it raises, the
  registry is not touched.
\<close>

definition connect :: "bool \<Rightarrow> registry \<Rightarrow> string \<Rightarrow> ws \<Rightarrow> error + registry" where
  "connect accepted active product_id websocket =
     (if \<not> accepted then Inl TransportError
      else Inr (active(product_id \<mapsto> get_active active product_id @ [websocket])))"

text \<open>
  \<^verbatim>\<open>
  def disconnect(self, product_id, websocket):
      conns = self.active.get(product_id, [])
      if websocket in conns:
          conns.remove(websocket)
      if not conns and product_id in self.active:
          del self.active[product_id]
  \<close>
  \<^verbatim>\<open>conns\<close> is the list stored in the dictionary (or a fresh empty list when the key
  is absent), so \<^verbatim>\<open>conns.remove\<close> changes the stored list in place: the model
  writes the shortened list back under the key. \<^verbatim>\<open>list.remove\<close> deletes the first
  occurrence only, which is \<open>remove1\<close>.
\<close>

definition disconnect :: "registry \<Rightarrow> string \<Rightarrow> ws \<Rightarrow> registry" where
  "disconnect active product_id websocket =
     (let conns = get_active active product_id;
          conns' = (if websocket \<in> set conns then remove1 websocket conns else conns);
          active' = (if active product_id \<noteq> None then active(product_id \<mapsto> conns') else active)
      in if conns' = [] \<and> active' product_id \<noteq> None
         then active'(product_id := None)
         else active')"

text \<open>
  \<^verbatim>\<open>
  async def broadcast(self, product_id, message):
      for ws in list(self.active.get(product_id, [])):
          try:
              await ws.send_json(message)
          except Exception:
              pass
  \<close>
  \<open>send_json ws message\<close> says whether the send to \<open>ws\<close> goes through (\<open>True\<close>) or
  raises (\<open>False\<close>). The loop runs over the copy taken by \<^verbatim>\<open>list(...)\<close>. Its result
  is the list of send attempts in order, each with its outcome; the registry is only read.
\<close>

datatype outcome = Sent | Raised

fun broadcast_loop :: "(ws \<Rightarrow> 'm \<Rightarrow> bool) \<Rightarrow> ws list \<Rightarrow> 'm \<Rightarrow> (ws \<times> outcome) list" where
  "broadcast_loop send_json [] message = []"
| "broadcast_loop send_json (w # snapshot) message =
     (if send_json w message
      then (w, Sent) # broadcast_loop send_json snapshot message
      else (w, Raised) # broadcast_loop send_json snapshot message)"

definition broadcast :: "(ws \<Rightarrow> 'm \<Rightarrow> bool) \<Rightarrow> registry \<Rightarrow> string \<Rightarrow> 'm \<Rightarrow> (ws \<times> outcome) list" where
  "broadcast send_json active product_id message =
     broadcast_loop send_json (get_active active product_id) message"

text \<open>
  The registry invariant: a key is in the dictionary exactly when the list of connections
  read for it is not empty.
\<close>

definition registry_inv :: "registry \<Rightarrow> bool" where
  "registry_inv active =
     (\<forall>product_id. (active product_id \<noteq> None) = (get_active active product_id \<noteq> []))"

text \<open>A run of the manager from the empty registry of \<^verbatim>\<open>__init__\<close>.\<close>

datatype manager_call = Connect bool string ws | Disconnect string ws

fun manager_step :: "registry \<Rightarrow> manager_call \<Rightarrow> registry" where
  "manager_step active (Connect accepted product_id websocket) =
     (case connect accepted active product_id websocket of
        Inl e \<Rightarrow> active
      | Inr active' \<Rightarrow> active')"
| "manager_step active (Disconnect product_id websocket) =
     disconnect active product_id websocket"

definition manager_run :: "manager_call list \<Rightarrow> registry" where
  "manager_run calls = foldl manager_step Map.empty calls"

section \<open>Models\<close>

text \<open>
  \<^verbatim>\<open>datetime\<close>: the wall-clock reading in microseconds since 0001-01-01T00:00:00 and
  the UTC offset of its \<^verbatim>\<open>tzinfo\<close> (\<open>None\<close> for a naive value).
  \<^verbatim>\<open>timedelta(hours=h)\<close> raises when it spans more than 999999999 days;
  \<^verbatim>\<open>datetime + timedelta\<close> adds to the wall-clock reading, keeps the
  \<^verbatim>\<open>tzinfo\<close> and raises when the result is not a day of the years 1 to 9999
  (day ordinals 1 to 3652059).
\<close>

record datetime =
  wall :: int
  tzinfo :: "int option"

definition timedelta_hours :: "int \<Rightarrow> error + int" where
  "timedelta_hours h =
     (let days = (h * 3600) div 86400
      in if - 999999999 \<le> days \<and> days \<le> 999999999
         then Inr (h * 3600000000)
         else Inl OverflowError)"

definition datetime_add :: "datetime \<Rightarrow> int \<Rightarrow> error + datetime" where
  "datetime_add t delta =
     (let ordinal = (wall t + delta) div 86400000000 + 1
      in if 0 < ordinal \<and> ordinal \<le> 3652059
         then Inr (t\<lparr>wall := wall t + delta\<rparr>)
         else Inl OverflowError)"

text \<open>Python floats are only copied from the payload into the document.\<close>

typedecl float

text \<open>
  \<^verbatim>\<open>
  class ProductIn(BaseModel):
      title: str
      description: Optional[str] = None
      images: List[str] = Field(default_factory=list)
      auction_start_price: Optional[float] = Field(None, ge=0)
      buy_now_price: Optional[float] = Field(None, ge=0)
      shares_total: Optional[int] = Field(None, ge=0)
      share_price: Optional[float] = Field(None, ge=0)
      raffle_tickets_total: Optional[int] = Field(None, ge=0)
      raffle_ticket_price: Optional[float] = Field(None, ge=0)
      vote_start_at: Optional[datetime] = None
  \<close>
  The fields of the payload carry the prefix \<open>in_\<close>, since the document has fields of
  the same names.
\<close>

record ProductIn =
  in_title :: string
  in_description :: "string option"
  in_images :: "string list"
  in_auction_start_price :: "float option"
  in_buy_now_price :: "float option"
  in_shares_total :: "int option"
  in_share_price :: "float option"
  in_raffle_tickets_total :: "int option"
  in_raffle_ticket_price :: "float option"
  in_vote_start_at :: "datetime option"

text \<open>
  \<^verbatim>\<open>
  VoteOption = Literal["auction", "buy_now", "tokenization", "raffle", "not_interested"]

  class VoteIn(BaseModel):
      option: VoteOption
      desired_shares: Optional[int] = Field(None, ge=1)
      desired_tickets: Optional[int] = Field(None, ge=1)
  \<close>
  At run time \<^verbatim>\<open>vote.option\<close> is a string; \<open>VoteIn_valid\<close> is what the model's
  validation lets through.
\<close>

definition VoteOption :: "string list" where
  "VoteOption = [''auction'', ''buy_now'', ''tokenization'', ''raffle'', ''not_interested'']"

record VoteIn =
  option :: string
  desired_shares :: "int option"
  desired_tickets :: "int option"

definition VoteIn_valid :: "VoteIn \<Rightarrow> bool" where
  "VoteIn_valid vote \<longleftrightarrow>
     option vote \<in> set VoteOption \<and>
     (case desired_shares vote of None \<Rightarrow> True | Some n \<Rightarrow> 1 \<le> n) \<and>
     (case desired_tickets vote of None \<Rightarrow> True | Some n \<Rightarrow> 1 \<le> n)"

text \<open>
  A document of the \<^verbatim>\<open>product\<close> collection, with the keys \<^verbatim>\<open>create_product\<close>
  writes. \<^verbatim>\<open>cast_vote\<close> reads \<^verbatim>\<open>status\<close> and \<^verbatim>\<open>counts\<close> with
  \<^verbatim>\<open>product.get\<close>, which allows for a document without them: \<open>None\<close> is the absent
  key. A locale entry is (locale, title, description).
\<close>

record product =
  locales :: "(string \<times> string \<times> string option) list"
  images :: "string list"
  auction_start_price :: "float option"
  buy_now_price :: "float option"
  shares_total :: "int option"
  share_price :: "float option"
  raffle_tickets_total :: "int option"
  raffle_ticket_price :: "float option"
  vote_start_at :: datetime
  vote_end_at :: datetime
  status :: "string option"
  counts :: "(string \<rightharpoonup> int) option"

text \<open>
  The message of \<^verbatim>\<open>cast_vote\<close>, with the keys \<^verbatim>\<open>type\<close>, \<^verbatim>\<open>product_id\<close>,
  \<^verbatim>\<open>counts\<close> and \<^verbatim>\<open>server_time\<close> (the datetime whose \<^verbatim>\<open>isoformat()\<close> is sent).
\<close>

record message =
  msg_type :: string
  msg_product_id :: string
  msg_counts :: "string \<rightharpoonup> int"
  msg_server_time :: datetime

section \<open>State\<close>

text \<open>
  An \<^verbatim>\<open>ObjectId\<close> is modelled by its canonical text, the one \<^verbatim>\<open>str()\<close> returns.
  The state of the process and of its store: the \<^verbatim>\<open>product\<close> collection,
  \<^verbatim>\<open>manager.active\<close>, and the record of every call of \<^verbatim>\<open>manager.broadcast\<close>
  that ran (topic, message, send attempts), oldest first.
\<close>

type_synonym oid = string

record emission =
  topic :: string
  sent :: message
  attempts :: "(ws \<times> outcome) list"

record state =
  db_product :: "oid \<rightharpoonup> product"
  manager :: registry
  emitted :: "emission list"

text \<open>
  What a call reads from outside the process: the clock
  (\<^verbatim>\<open>datetime.now(timezone.utc)\<close>), whether \<^verbatim>\<open>anyio.from_thread.run\<close> gets the
  coroutine onto the event loop (\<open>False\<close>: it raises, as \<^verbatim>\<open>import anyio\<close> may), and
  which calls of \<^verbatim>\<open>ws.send_json\<close> go through.
\<close>

record io =
  now :: datetime
  from_thread :: bool
  send_ok :: "ws \<Rightarrow> message \<Rightarrow> bool"

text \<open>
  Modelled from the spec: the document store (\<^verbatim>\<open>database.py\<close>, not among the source
  files), which the spec describes as \<^verbatim>\<open>insert(collection, doc) -> id\<close>,
  \<^verbatim>\<open>query(collection, filter, limit) -> [doc]\<close> and
  \<^verbatim>\<open>update(collection, id, patch)\<close>. \<open>create_document\<close> is the insert into
  \<^verbatim>\<open>product\<close>, \<open>new_id\<close> the identifier the store assigns; \<open>get_documents\<close> is the
  query with filter \<^verbatim>\<open>{"_id": _id}\<close> and limit 1; \<open>update_one\<close> is the update with
  patch \<^verbatim>\<open>{"$set": {"counts": counts}}\<close>.
\<close>

definition create_document :: "oid \<Rightarrow> state \<Rightarrow> product \<Rightarrow> string \<times> state" where
  "create_document new_id st doc = (new_id, st\<lparr>db_product := (db_product st)(new_id \<mapsto> doc)\<rparr>)"

definition get_documents :: "state \<Rightarrow> oid \<Rightarrow> product list" where
  "get_documents st oid = (case db_product st oid of None \<Rightarrow> [] | Some doc \<Rightarrow> [doc])"

definition update_one :: "state \<Rightarrow> oid \<Rightarrow> (string \<rightharpoonup> int) \<Rightarrow> state" where
  "update_one st oid new_counts =
     (case db_product st oid of
        None \<Rightarrow> st
      | Some doc \<Rightarrow> st\<lparr>db_product := (db_product st)(oid \<mapsto> doc\<lparr>counts := Some new_counts\<rparr>)\<rparr>)"

section \<open>Endpoints\<close>

text \<open>
  \<^verbatim>\<open>DEFAULT_WINDOW_HOURS = int(os.getenv("VOTE_WINDOW_HOURS", "72"))\<close>; the argument is
  the integer the environment variable's text reads as, \<open>None\<close> when the variable is not
  set.
\<close>

definition DEFAULT_WINDOW_HOURS :: "int option \<Rightarrow> int" where
  "DEFAULT_WINDOW_HOURS VOTE_WINDOW_HOURS =
     (case VOTE_WINDOW_HOURS of None \<Rightarrow> 72 | Some h \<Rightarrow> h)"

text \<open>
  \<^verbatim>\<open>
  def create_product(payload: ProductIn):
      now = datetime.now(timezone.utc)
      vote_start_at = payload.vote_start_at or now
      vote_end_at = vote_start_at + timedelta(hours=DEFAULT_WINDOW_HOURS)
      doc = {"locales": [...], "images": payload.images, ...,
             "vote_start_at": vote_start_at, "vote_end_at": vote_end_at,
             "status": "in_voting",
             "counts": {"auction": 0, "buy_now": 0, "tokenization": 0,
                        "raffle": 0, "not_interested": 0}}
      pid = create_document("product", doc)
      doc["_id"] = pid
      return {"data": doc}
  \<close>
  A \<^verbatim>\<open>datetime\<close> is never false, so \<^verbatim>\<open>or\<close> chooses \<^verbatim>\<open>now\<close> exactly for
  \<^verbatim>\<open>None\<close>. The response is the pair of \<^verbatim>\<open>doc["_id"]\<close> and the document.
\<close>

definition create_product ::
  "int option \<Rightarrow> datetime \<Rightarrow> oid \<Rightarrow> state \<Rightarrow> ProductIn \<Rightarrow> (error + string \<times> product) \<times> state" where
  "create_product VOTE_WINDOW_HOURS clock new_id st payload =
     (let start = (case in_vote_start_at payload of None \<Rightarrow> clock | Some t \<Rightarrow> t)
      in case timedelta_hours (DEFAULT_WINDOW_HOURS VOTE_WINDOW_HOURS) of
           Inl e \<Rightarrow> (Inl e, st)
         | Inr delta \<Rightarrow>
             (case datetime_add start delta of
                Inl e \<Rightarrow> (Inl e, st)
              | Inr end \<Rightarrow>
                  (let doc = \<lparr>locales =
                                [(''ro'', in_title payload, in_description payload),
                                 (''en'', in_title payload, in_description payload),
                                 (''it'', in_title payload, in_description payload)],
                              images = in_images payload,
                              auction_start_price = in_auction_start_price payload,
                              buy_now_price = in_buy_now_price payload,
                              shares_total = in_shares_total payload,
                              share_price = in_share_price payload,
                              raffle_tickets_total = in_raffle_tickets_total payload,
                              raffle_ticket_price = in_raffle_ticket_price payload,
                              vote_start_at = start,
                              vote_end_at = end,
                              status = Some ''in_voting'',
                              counts = Some [''auction'' \<mapsto> 0, ''buy_now'' \<mapsto> 0,
                                             ''tokenization'' \<mapsto> 0, ''raffle'' \<mapsto> 0,
                                             ''not_interested'' \<mapsto> 0]\<rparr>;
                       (pid, st') = create_document new_id st doc
                   in (Inr (pid, doc), st'))))"

text \<open>\<^verbatim>\<open>product.get("counts", {})\<close>\<close>

definition get_counts :: "product \<Rightarrow> (string \<rightharpoonup> int)" where
  "get_counts doc = (case counts doc of None \<Rightarrow> Map.empty | Some c \<Rightarrow> c)"

text \<open>
  \<^verbatim>\<open>
  def cast_vote(product_id: str, vote: VoteIn):
      try:
          _id = ObjectId(product_id)
      except Exception:
          raise HTTPException(status_code=404, detail="Product not found")
      items = get_documents("product", {"_id": _id}, limit=1)
      if not items:
          raise HTTPException(status_code=404, detail="Product not found")
      product = items[0]
      if product.get("status") != "in_voting":
          raise HTTPException(status_code=400, detail="Voting not active")
      counts = product.get("counts", {})
      if vote.option not in counts:
          raise HTTPException(status_code=400, detail="Invalid option")
      counts[vote.option] = int(counts.get(vote.option, 0)) + 1
      db["product"].update_one({"_id": _id}, {"$set": {"counts": counts}})
      try:
          import anyio
          anyio.from_thread.run(manager.broadcast, product_id, {
              "type": "votes.update", "product_id": product_id,
              "counts": counts,
              "server_time": datetime.now(timezone.utc).isoformat()})
      except Exception:
          pass
      return {"data": {"ok": True, "counts": counts}}
  \<close>
  \<open>ObjectId\<close> is \<^verbatim>\<open>bson.ObjectId\<close> on a string: \<open>None\<close> where it raises. The result
  \<open>Inr counts\<close> is the response \<^verbatim>\<open>{"data": {"ok": True, "counts": counts}}\<close>.
\<close>

definition cast_vote ::
  "(string \<Rightarrow> oid option) \<Rightarrow> io \<Rightarrow> state \<Rightarrow> string \<Rightarrow> VoteIn \<Rightarrow>
     (error + (string \<rightharpoonup> int)) \<times> state" where
  "cast_vote ObjectId env st product_id vote =
     (case ObjectId product_id of
        None \<Rightarrow> (Inl (HTTPException 404 ''Product not found''), st)
      | Some oid \<Rightarrow>
          (case get_documents st oid of
             [] \<Rightarrow> (Inl (HTTPException 404 ''Product not found''), st)
           | product # _ \<Rightarrow>
               if status product \<noteq> Some ''in_voting''
               then (Inl (HTTPException 400 ''Voting not active''), st)
               else
                 (let old_counts = get_counts product
                  in if old_counts (option vote) = None
                     then (Inl (HTTPException 400 ''Invalid option''), st)
                     else
                       (let new_counts =
                              old_counts(option vote \<mapsto>
                                (case old_counts (option vote) of None \<Rightarrow> 0 | Some n \<Rightarrow> n) + 1);
                            st1 = update_one st oid new_counts;
                            message = \<lparr>msg_type = ''votes.update'',
                                       msg_product_id = product_id,
                                       msg_counts = new_counts,
                                       msg_server_time = now env\<rparr>;
                            st2 = (if from_thread env
                                   then st1\<lparr>emitted := emitted st1 @
                                          [\<lparr>topic = product_id, sent = message,
                                            attempts = broadcast (send_ok env) (manager st1)
                                                         product_id message\<rparr>]\<rparr>
                                   else st1)
                        in (Inr new_counts, st2)))))"

text \<open>
  The spec's names for the errors of \<^verbatim>\<open>cast_vote\<close>; \<open>InvalidState\<close> and
  \<open>InvalidArgument\<close> share the status code 400 and differ in the detail.
\<close>

definition NotFound :: error where
  "NotFound = HTTPException 404 ''Product not found''"

definition InvalidState :: error where
  "InvalidState = HTTPException 400 ''Voting not active''"

definition InvalidArgument :: error where
  "InvalidArgument = HTTPException 400 ''Invalid option''"

text \<open>Successive requests to the vote endpoint, each with what it reads from outside.\<close>

fun cast_votes ::
  "(string \<Rightarrow> oid option) \<Rightarrow> state \<Rightarrow> (io \<times> string \<times> VoteIn) list \<Rightarrow>
     (error + (string \<rightharpoonup> int)) list \<times> state" where
  "cast_votes ObjectId st [] = ([], st)"
| "cast_votes ObjectId st ((env, product_id, vote) # calls) =
     (let (r, st1) = cast_vote ObjectId env st product_id vote;
          (rs, st2) = cast_votes ObjectId st1 calls
      in (r # rs, st2))"

text \<open>
  The broadcasts a run of requests adds to the record, and the counts carried by those of
  one topic, oldest first.
\<close>

definition emitted_by ::
  "(string \<Rightarrow> oid option) \<Rightarrow> state \<Rightarrow> (io \<times> string \<times> VoteIn) list \<Rightarrow> emission list" where
  "emitted_by ObjectId st calls =
     drop (length (emitted st)) (emitted (snd (cast_votes ObjectId st calls)))"

definition counts_sent_to :: "string \<Rightarrow> emission list \<Rightarrow> (string \<rightharpoonup> int) list" where
  "counts_sent_to t es = map (\<lambda>e. msg_counts (sent e)) (filter (\<lambda>e. topic e = t) es)"

text \<open>
  \<open>counts_le c c'\<close>: every option counted in \<open>c\<close> is counted in \<open>c'\<close>, with a value
  that is not smaller.
\<close>

definition counts_le :: "(string \<rightharpoonup> int) \<Rightarrow> (string \<rightharpoonup> int) \<Rightarrow> bool" where
  "counts_le c c' =
     (\<forall>k. case c k of
            None \<Rightarrow> True
          | Some n \<Rightarrow> (case c' k of None \<Rightarrow> False | Some m \<Rightarrow> n \<le> m))"

text \<open>The counts the store holds for an identifier (none for a missing document).\<close>

definition stored_counts :: "state \<Rightarrow> oid \<Rightarrow> (string \<rightharpoonup> int)" where
  "stored_counts st oid =
     (case db_product st oid of None \<Rightarrow> Map.empty | Some doc \<Rightarrow> get_counts doc)"

section \<open>Example values\<close>

text \<open>
  Concrete values for the examples below: an identifier parser that accepts exactly the
  strings of 24 lower-case hexadecimal digits, a product document with a given status and
  counts, a state holding that document with two connections registered for it, and the
  surroundings of a request at noon of 2026-11-04 (UTC) in which the send to connection 1
  raises.
\<close>

definition example_ObjectId :: "string \<Rightarrow> oid option" where
  "example_ObjectId s =
     (if length s = 24 \<and> list_all (\<lambda>c. c \<in> set ''0123456789abcdef'') s then Some s else None)"

definition example_id :: string where
  "example_id = ''65f1c0ffee00112233445566''"

definition zero_counts :: "string \<rightharpoonup> int" where
  "zero_counts = [''auction'' \<mapsto> 0, ''buy_now'' \<mapsto> 0, ''tokenization'' \<mapsto> 0,
                  ''raffle'' \<mapsto> 0, ''not_interested'' \<mapsto> 0]"

definition example_product :: "string \<Rightarrow> (string \<rightharpoonup> int) \<Rightarrow> product" where
  "example_product s c =
     \<lparr>locales = [(''ro'', ''Vase'', None), (''en'', ''Vase'', None), (''it'', ''Vase'', None)],
      images = [],
      auction_start_price = None,
      buy_now_price = None,
      shares_total = Some 100,
      share_price = None,
      raffle_tickets_total = None,
      raffle_ticket_price = None,
      vote_start_at = \<lparr>wall = 63929260800000000, tzinfo = Some 0\<rparr>,
      vote_end_at = \<lparr>wall = 63929520000000000, tzinfo = Some 0\<rparr>,
      status = Some s,
      counts = Some c\<rparr>"

definition example_state :: "product \<Rightarrow> state" where
  "example_state doc =
     \<lparr>db_product = [example_id \<mapsto> doc], manager = [example_id \<mapsto> [1, 2]], emitted = []\<rparr>"

definition example_io :: "bool \<Rightarrow> io" where
  "example_io reached =
     \<lparr>now = \<lparr>wall = 63929390400000000, tzinfo = Some 0\<rparr>,
      from_thread = reached,
      send_ok = (\<lambda>w m. w \<noteq> 1)\<rparr>"

section \<open>Properties of the ConnectionManager\<close>

lemma registry_inv_iff: "registry_inv active \<longleftrightarrow> (\<forall>product_id. active product_id \<noteq> Some [])"
  unfolding registry_inv_def get_active_def
  by (auto split: option.splits)

lemma connect_keeps_inv:
  assumes "registry_inv active" and "connect accepted active product_id websocket = Inr active'"
  shows "registry_inv active'"
  using assms unfolding registry_inv_iff connect_def
  by (auto split: if_splits)

lemma disconnect_keeps_inv:
  assumes "registry_inv active"
  shows "registry_inv (disconnect active product_id websocket)"
  using assms unfolding registry_inv_iff disconnect_def get_active_def Let_def
  by (auto split: option.splits if_splits)

lemma manager_step_keeps_inv:
  "registry_inv active \<Longrightarrow> registry_inv (manager_step active c)"
  by (cases c) (auto split: sum.splits intro: connect_keeps_inv disconnect_keeps_inv)

lemma foldl_manager_step_inv:
  "registry_inv active \<Longrightarrow> registry_inv (foldl manager_step active calls)"
  by (induction calls arbitrary: active) (simp_all add: manager_step_keeps_inv)

lemma registry_inv_empty: "registry_inv Map.empty"
  by (simp add: registry_inv_iff)

lemma disconnect_last:
  "active product_id = Some [websocket] \<Longrightarrow> disconnect active product_id websocket product_id = None"
  by (simp add: disconnect_def get_active_def)

lemma get_active_connect_all:
  "get_active (foldl manager_step active (map (Connect True product_id) chans)) product_id =
     get_active active product_id @ chans"
proof (induction chans arbitrary: active)
  case Nil
  show ?case by simp
next
  case (Cons c chans)
  have "get_active (manager_step active (Connect True product_id c)) product_id =
          get_active active product_id @ [c]"
    by (simp add: connect_def get_active_def)
  with Cons.IH [of "manager_step active (Connect True product_id c)"] show ?case
    by simp
qed

lemma length_broadcast_loop: "length (broadcast_loop send_json snapshot message) = length snapshot"
  by (induction snapshot) simp_all

lemma map_fst_broadcast_loop: "map fst (broadcast_loop send_json snapshot message) = snapshot"
  by (induction snapshot) simp_all

lemma get_active_disconnect:
  "get_active (disconnect active product_id websocket) product_id =
     remove1 websocket (get_active active product_id)"
  unfolding disconnect_def get_active_def Let_def
  by (auto split: option.splits simp: remove1_idem)

lemma count_list_remove1:
  "count_list (remove1 x xs) y =
     (if x = y \<and> x \<in> set xs then count_list xs y - 1 else count_list xs y)"
  by (induction xs) auto

lemma disconnect_absent_topic:
  "active product_id = None \<Longrightarrow> disconnect active product_id websocket = active"
  by (simp add: disconnect_def get_active_def)

lemma disconnect_absent_channel:
  assumes "registry_inv active" and "websocket \<notin> set (get_active active product_id)"
  shows "disconnect active product_id websocket = active"
proof (cases "active product_id")
  case None
  then show ?thesis by (rule disconnect_absent_topic)
next
  case (Some conns)
  with assms(1) have "conns \<noteq> []" by (auto simp: registry_inv_iff)
  with Some assms(2) show ?thesis
    by (auto simp: disconnect_def get_active_def fun_upd_idem)
qed

subsection \<open>The registry invariant\<close>

text \<open>
  Claim C4. After every \<open>connect\<close> and every \<open>disconnect\<close> a key is in the registry
  exactly when its list of connections is not empty: this holds of every registry reached
  from the empty one, a \<open>connect\<close> keeps it (and leaves the key present when the
  handshake went through, raising otherwise), a \<open>disconnect\<close> keeps it, and when the only
  connection of a topic is disconnected the key is deleted.
\<close>

theorem registry_invariant_maintained:
  "registry_inv (manager_run calls) \<and>
   (registry_inv active \<longrightarrow>
      (case connect accepted active product_id websocket of
         Inl e \<Rightarrow> e = TransportError \<and> \<not> accepted
       | Inr active' \<Rightarrow> registry_inv active' \<and> active' product_id \<noteq> None)) \<and>
   (registry_inv active \<longrightarrow> registry_inv (disconnect active product_id websocket)) \<and>
   (active product_id = Some [websocket] \<longrightarrow>
      disconnect active product_id websocket product_id = None)"
proof (intro conjI impI)
  show "registry_inv (manager_run calls)"
    unfolding manager_run_def by (rule foldl_manager_step_inv [OF registry_inv_empty])
next
  assume inv: "registry_inv active"
  show "case connect accepted active product_id websocket of
          Inl e \<Rightarrow> e = TransportError \<and> \<not> accepted
        | Inr active' \<Rightarrow> registry_inv active' \<and> active' product_id \<noteq> None"
  proof (cases "connect accepted active product_id websocket")
    case (Inl e)
    then show ?thesis by (auto simp: connect_def split: if_splits)
  next
    case (Inr active')
    from connect_keeps_inv [OF inv Inr] Inr show ?thesis
      by (auto simp: connect_def split: if_splits)
  qed
next
  assume "registry_inv active"
  then show "registry_inv (disconnect active product_id websocket)"
    by (rule disconnect_keeps_inv)
next
  assume "active product_id = Some [websocket]"
  then show "disconnect active product_id websocket product_id = None"
    by (rule disconnect_last)
qed

theorem registry_invariant_maintained_witness:
  "registry_inv [''p1'' \<mapsto> [7]] \<and>
   registry_inv (manager_run [Connect True ''p1'' 7, Connect True ''p2'' 8, Disconnect ''p1'' 7]) \<and>
   connect True [''p1'' \<mapsto> [7]] ''p1'' 8 = Inr [''p1'' \<mapsto> [7, 8]] \<and>
   registry_inv [''p1'' \<mapsto> [7, 8]] \<and>
   registry_inv (disconnect [''p1'' \<mapsto> [7]] ''p1'' 7) \<and>
   disconnect [''p1'' \<mapsto> [7]] ''p1'' 7 ''p1'' = None"
  using registry_invariant_maintained
    [of "[Connect True ''p1'' 7, Connect True ''p2'' 8, Disconnect ''p1'' 7]"
        "[''p1'' \<mapsto> [7]]" True "''p1''" 8]
    registry_invariant_maintained [of "[]" "[''p1'' \<mapsto> [7]]" True "''p1''" 7]
  by (simp add: registry_inv_iff connect_def get_active_def)

subsection \<open>Registrations and delivery attempts\<close>

text \<open>
  Claim C6. When N distinct connections are registered under a topic that had none, a
  broadcast to the topic makes exactly N send attempts, one per connection in the order of
  registration, whatever the sends do. After one of them is disconnected, a second
  broadcast makes N - 1 attempts, and the number of connections the registry holds for the
  topic has gone down by exactly one.
\<close>

theorem broadcast_attempts_follow_registrations:
  assumes fresh: "active0 product_id = None"
    and reg: "active = foldl manager_step active0 (map (Connect True product_id) chans)"
    and dist: "distinct chans"
    and mem: "websocket \<in> set chans"
  shows "length (broadcast send_json active product_id message) = length chans \<and>
         map fst (broadcast send_json active product_id message) = chans \<and>
         length (broadcast send_json' (disconnect active product_id websocket) product_id message')
           = length chans - 1 \<and>
         length (get_active active product_id) = length chans \<and>
         length (get_active (disconnect active product_id websocket) product_id) + 1
           = length chans"
proof -
  have chans: "get_active active product_id = chans"
    using fresh by (simp add: reg get_active_connect_all) (simp add: get_active_def)
  have len: "length (remove1 websocket chans) = length chans - 1"
    using mem by (simp add: length_remove1)
  have pos: "0 < length chans"
    using mem by (cases chans) auto
  show ?thesis
    using len pos
    by (simp add: broadcast_def length_broadcast_loop map_fst_broadcast_loop chans
        get_active_disconnect)
qed

theorem broadcast_attempts_follow_registrations_witness:
  "length (broadcast (\<lambda>w m. w \<noteq> 2) (foldl manager_step Map.empty (map (Connect True ''p1'') [1, 2, 3]))
      ''p1'' ''hello'') = 3 \<and>
   length (broadcast (\<lambda>w m. True)
      (disconnect (foldl manager_step Map.empty (map (Connect True ''p1'') [1, 2, 3])) ''p1'' 2)
      ''p1'' ''again'') = 2 \<and>
   length (get_active (disconnect (foldl manager_step Map.empty (map (Connect True ''p1'') [1, 2, 3]))
      ''p1'' 2) ''p1'') + 1 = 3"
  using broadcast_attempts_follow_registrations
    [of Map.empty "''p1''" "foldl manager_step Map.empty (map (Connect True ''p1'') [1, 2, 3])"
        "[1, 2, 3]" 2 "\<lambda>w m. w \<noteq> 2" "''hello''" "\<lambda>w m. True" "''again''"]
  by simp

subsection \<open>Repeated registrations\<close>

text \<open>
  Claim C10. The registry does not deduplicate: an accepted \<open>connect\<close> adds one more
  occurrence of the connection. When a connection is registered more than once under a
  topic, one \<open>disconnect\<close> removes exactly one occurrence: the connection stays
  registered one time fewer, the other connections and topics are untouched, and a later
  broadcast still sends to it (as many times as it remains registered). A \<open>disconnect\<close>
  for a topic that is not registered, or for a connection that is not registered under the
  topic, changes nothing; \<open>disconnect\<close> has no failing branch.
\<close>

theorem disconnect_removes_one_registration:
  "(\<forall>active'. connect True active product_id websocket = Inr active' \<longrightarrow>
      count_list (get_active active' product_id) websocket
        = count_list (get_active active product_id) websocket + 1) \<and>
   (1 < count_list (get_active active product_id) websocket \<longrightarrow>
      count_list (get_active (disconnect active product_id websocket) product_id) websocket
        = count_list (get_active active product_id) websocket - 1 \<and>
      (\<forall>other. other \<noteq> websocket \<longrightarrow>
         count_list (get_active (disconnect active product_id websocket) product_id) other
           = count_list (get_active active product_id) other) \<and>
      (\<forall>topic'. topic' \<noteq> product_id \<longrightarrow>
         disconnect active product_id websocket topic' = active topic') \<and>
      count_list (map fst (broadcast send_json (disconnect active product_id websocket)
                             product_id message)) websocket
        = count_list (get_active active product_id) websocket - 1 \<and>
      websocket \<in> fst ` set (broadcast send_json (disconnect active product_id websocket)
                               product_id message)) \<and>
   (active product_id = None \<longrightarrow> disconnect active product_id websocket = active) \<and>
   (registry_inv active \<longrightarrow> websocket \<notin> set (get_active active product_id) \<longrightarrow>
      disconnect active product_id websocket = active)"
proof (intro conjI impI allI)
  fix active'
  assume "connect True active product_id websocket = Inr active'"
  then show "count_list (get_active active' product_id) websocket
        = count_list (get_active active product_id) websocket + 1"
    by (auto simp: connect_def get_active_def)
next
  assume k: "1 < count_list (get_active active product_id) websocket"
  then have mem: "websocket \<in> set (get_active active product_id)"
    by (metis count_list_0_iff not_one_less_zero)
  show c1: "count_list (get_active (disconnect active product_id websocket) product_id) websocket
        = count_list (get_active active product_id) websocket - 1"
    using mem by (simp add: get_active_disconnect count_list_remove1)
  show "count_list (map fst (broadcast send_json (disconnect active product_id websocket)
                             product_id message)) websocket
        = count_list (get_active active product_id) websocket - 1"
    using c1 by (simp add: broadcast_def map_fst_broadcast_loop)
  have "0 < count_list (get_active (disconnect active product_id websocket) product_id) websocket"
    using c1 k by simp
  then have "websocket \<in> set (get_active (disconnect active product_id websocket) product_id)"
    by (metis count_list_0_iff less_numeral_extra(3))
  then have "websocket \<in> set (map fst (broadcast send_json (disconnect active product_id websocket)
                               product_id message))"
    by (simp add: broadcast_def map_fst_broadcast_loop)
  then show "websocket \<in> fst ` set (broadcast send_json (disconnect active product_id websocket)
                               product_id message)"
    by simp
next
  fix other
  assume "other \<noteq> websocket"
  then show "count_list (get_active (disconnect active product_id websocket) product_id) other
           = count_list (get_active active product_id) other"
    by (simp add: get_active_disconnect count_list_remove1)
next
  fix topic'
  assume "topic' \<noteq> product_id"
  then show "disconnect active product_id websocket topic' = active topic'"
    by (simp add: disconnect_def Let_def)
next
  assume "active product_id = None"
  then show "disconnect active product_id websocket = active"
    by (rule disconnect_absent_topic)
next
  assume "registry_inv active" and "websocket \<notin> set (get_active active product_id)"
  then show "disconnect active product_id websocket = active"
    by (rule disconnect_absent_channel)
qed

theorem disconnect_removes_one_registration_witness:
  "connect True [''p1'' \<mapsto> [5, 6]] ''p1'' 5 = Inr [''p1'' \<mapsto> [5, 6, 5]] \<and>
   count_list (get_active [''p1'' \<mapsto> [5, 6]] ''p1'') 5 = 1 \<and>
   count_list (get_active [''p1'' \<mapsto> [5, 6, 5]] ''p1'') 5 = 2 \<and>
   count_list (get_active (disconnect [''p1'' \<mapsto> [5, 6, 5]] ''p1'' 5) ''p1'') 5 = 1 \<and>
   5 \<in> fst ` set (broadcast (\<lambda>w m. False) (disconnect [''p1'' \<mapsto> [5, 6, 5]] ''p1'' 5)
                     ''p1'' ''tick'') \<and>
   ([''p1'' \<mapsto> [5, 6, 5]] :: registry) ''p2'' = None \<and>
   disconnect [''p1'' \<mapsto> [5, 6, 5]] ''p2'' 5 = [''p1'' \<mapsto> [5, 6, 5]] \<and>
   registry_inv [''p1'' \<mapsto> [5, 6, 5]] \<and>
   9 \<notin> set (get_active [''p1'' \<mapsto> [5, 6, 5]] ''p1'') \<and>
   disconnect [''p1'' \<mapsto> [5, 6, 5]] ''p1'' 9 = [''p1'' \<mapsto> [5, 6, 5]]"
proof -
  let ?b = "[''p1'' \<mapsto> [5, 6 :: nat]]"
  let ?a = "[''p1'' \<mapsto> [5, 6, 5 :: nat]]"
  have reg: "connect True ?b ''p1'' 5 = Inr ?a"
    by (simp add: connect_def get_active_def)
  have one: "count_list (get_active ?b ''p1'') 5 = 1"
    by (simp add: get_active_def)
  note added = disconnect_removes_one_registration
    [of ?b "''p1''" 5, THEN conjunct1, THEN spec, THEN mp, OF reg]
  from added one have two: "count_list (get_active ?a ''p1'') 5 = 2"
    by simp
  then have more: "1 < count_list (get_active ?a ''p1'') 5"
    by simp
  note removed = disconnect_removes_one_registration
    [of ?a "''p1''" 5 "\<lambda>w m. False" "''tick''", THEN conjunct2, THEN conjunct1, THEN mp, OF more]
  from removed two have less: "count_list (get_active (disconnect ?a ''p1'' 5) ''p1'') 5 = 1"
    by simp
  have still: "5 \<in> fst ` set (broadcast (\<lambda>w m. False) (disconnect ?a ''p1'' 5) ''p1'' ''tick'')"
    by (rule removed [THEN conjunct2, THEN conjunct2, THEN conjunct2, THEN conjunct2])
  have none: "?a ''p2'' = None"
    by simp
  have noop1: "disconnect ?a ''p2'' 5 = ?a"
    by (rule disconnect_removes_one_registration
          [of ?a "''p2''" 5, THEN conjunct2, THEN conjunct2, THEN conjunct1, THEN mp, OF none])
  have inv: "registry_inv ?a"
    by (simp add: registry_inv_iff)
  have absent: "9 \<notin> set (get_active ?a ''p1'')"
    by (simp add: get_active_def)
  have noop2: "disconnect ?a ''p1'' 9 = ?a"
    by (rule disconnect_removes_one_registration
          [of ?a "''p1''" 9, THEN conjunct2, THEN conjunct2, THEN conjunct2, THEN mp, THEN mp,
           OF inv absent])
  show ?thesis
    by (intro conjI) (fact reg one two less still none noop1 inv absent noop2)+
qed

section \<open>Properties of the vote endpoint\<close>

lemma cast_vote_found:
  assumes "ObjectId product_id = Some oid" and "db_product st oid = Some p"
    and "status p = Some ''in_voting''" and "get_counts p (option vote) = Some n"
  shows "cast_vote ObjectId env st product_id vote =
           (Inr ((get_counts p)(option vote \<mapsto> n + 1)),
            (if from_thread env
             then (update_one st oid ((get_counts p)(option vote \<mapsto> n + 1)))
                    \<lparr>emitted := emitted st @
                       [\<lparr>topic = product_id,
                         sent = \<lparr>msg_type = ''votes.update'', msg_product_id = product_id,
                                  msg_counts = (get_counts p)(option vote \<mapsto> n + 1),
                                  msg_server_time = now env\<rparr>,
                         attempts = broadcast (send_ok env) (manager st) product_id
                                      \<lparr>msg_type = ''votes.update'', msg_product_id = product_id,
                                        msg_counts = (get_counts p)(option vote \<mapsto> n + 1),
                                        msg_server_time = now env\<rparr>\<rparr>]\<rparr>
             else update_one st oid ((get_counts p)(option vote \<mapsto> n + 1))))"
  using assms
  by (simp add: cast_vote_def get_documents_def Let_def update_one_def)

lemma cast_vote_not_active:
  assumes "ObjectId product_id = Some oid" and "db_product st oid = Some p"
    and "status p \<noteq> Some ''in_voting''"
  shows "cast_vote ObjectId env st product_id vote = (Inl (HTTPException 400 ''Voting not active''), st)"
  using assms by (simp add: cast_vote_def get_documents_def)

lemma cast_vote_unknown_option:
  assumes "ObjectId product_id = Some oid" and "db_product st oid = Some p"
    and "status p = Some ''in_voting''" and "get_counts p (option vote) = None"
  shows "cast_vote ObjectId env st product_id vote = (Inl (HTTPException 400 ''Invalid option''), st)"
  using assms by (simp add: cast_vote_def get_documents_def)

lemma cast_vote_no_product:
  assumes "ObjectId product_id = None \<or> (\<exists>oid. ObjectId product_id = Some oid \<and> db_product st oid = None)"
  shows "cast_vote ObjectId env st product_id vote = (Inl (HTTPException 404 ''Product not found''), st)"
  using assms by (auto simp: cast_vote_def get_documents_def)

lemma update_one_found:
  "db_product st oid = Some p \<Longrightarrow>
   update_one st oid c = st\<lparr>db_product := (db_product st)(oid \<mapsto> p\<lparr>counts := Some c\<rparr>)\<rparr>"
  by (simp add: update_one_def)

lemma example_ObjectId_example_id: "example_ObjectId example_id = Some example_id"
  by (simp add: example_ObjectId_def example_id_def)

lemma example_state_lookup: "db_product (example_state doc) example_id = Some doc"
  by (simp add: example_state_def)

lemma example_product_sel:
  "status (example_product s c) = Some s"
  "counts (example_product s c) = Some c"
  "get_counts (example_product s c) = c"
  by (simp_all add: example_product_def get_counts_def)

lemma zero_counts_raffle: "zero_counts ''raffle'' = Some 0"
  by (simp add: zero_counts_def)

subsection \<open>A successful vote\<close>

text \<open>
  Claim C1. When the identifier resolves to a product whose status is \<open>in_voting\<close> and the
  vote's option is a key of the product's counts, \<open>cast_vote\<close> returns the counts with
  the option's counter one higher and every other counter as it was, and stores exactly
  these counts in the product's document; nothing else in the store and nothing in the
  registry changes. This holds for every registry and whatever the hand-over to the event
  loop and the sends do, so also when nobody is listening.
\<close>

theorem cast_vote_increments_chosen_option:
  assumes "ObjectId product_id = Some oid"
    and "db_product st oid = Some p"
    and "status p = Some ''in_voting''"
    and "counts p = Some c"
    and "c (option vote) = Some n"
  shows "fst (cast_vote ObjectId env st product_id vote) = Inr (c(option vote \<mapsto> n + 1)) \<and>
         (c(option vote \<mapsto> n + 1)) (option vote) = Some (n + 1) \<and>
         (\<forall>k. k \<noteq> option vote \<longrightarrow> (c(option vote \<mapsto> n + 1)) k = c k) \<and>
         db_product (snd (cast_vote ObjectId env st product_id vote)) =
           (db_product st)(oid \<mapsto> p\<lparr>counts := Some (c(option vote \<mapsto> n + 1))\<rparr>) \<and>
         manager (snd (cast_vote ObjectId env st product_id vote)) = manager st"
proof -
  from assms(4) have gc: "get_counts p = c"
    by (simp add: get_counts_def)
  with assms(5) have key: "get_counts p (option vote) = Some n"
    by simp
  have "cast_vote ObjectId env st product_id vote =
          (Inr (c(option vote \<mapsto> n + 1)),
           (if from_thread env
            then (update_one st oid (c(option vote \<mapsto> n + 1)))
                   \<lparr>emitted := emitted st @
                      [\<lparr>topic = product_id,
                        sent = \<lparr>msg_type = ''votes.update'', msg_product_id = product_id,
                                 msg_counts = c(option vote \<mapsto> n + 1),
                                 msg_server_time = now env\<rparr>,
                        attempts = broadcast (send_ok env) (manager st) product_id
                                     \<lparr>msg_type = ''votes.update'', msg_product_id = product_id,
                                       msg_counts = c(option vote \<mapsto> n + 1),
                                       msg_server_time = now env\<rparr>\<rparr>]\<rparr>
            else update_one st oid (c(option vote \<mapsto> n + 1))))"
    using cast_vote_found [of ObjectId product_id oid st p vote n env] assms(1-3) key
    by (simp add: gc)
  then show ?thesis
    by (simp add: update_one_found [OF assms(2)])
qed

theorem cast_vote_increments_chosen_option_witness:
  "example_ObjectId example_id = Some example_id \<and>
   db_product (example_state (example_product ''in_voting'' zero_counts)) example_id
     = Some (example_product ''in_voting'' zero_counts) \<and>
   status (example_product ''in_voting'' zero_counts) = Some ''in_voting'' \<and>
   counts (example_product ''in_voting'' zero_counts) = Some zero_counts \<and>
   zero_counts ''raffle'' = Some 0 \<and>
   fst (cast_vote example_ObjectId (example_io True)
          (example_state (example_product ''in_voting'' zero_counts)) example_id
          \<lparr>option = ''raffle'', desired_shares = None, desired_tickets = Some 2\<rparr>)
     = Inr (zero_counts(''raffle'' \<mapsto> 1)) \<and>
   db_product (snd (cast_vote example_ObjectId (example_io True)
          (example_state (example_product ''in_voting'' zero_counts)) example_id
          \<lparr>option = ''raffle'', desired_shares = None, desired_tickets = Some 2\<rparr>)) example_id
     = Some (example_product ''in_voting'' (zero_counts(''raffle'' \<mapsto> 1)))"
proof -
  let ?p = "example_product ''in_voting'' zero_counts"
  let ?v = "\<lparr>option = ''raffle'', desired_shares = None, desired_tickets = Some (2::int)\<rparr>"
  have v: "zero_counts (option ?v) = Some 0"
    by (simp add: zero_counts_raffle)
  note T = cast_vote_increments_chosen_option
    [of example_ObjectId example_id example_id "example_state ?p" ?p zero_counts ?v 0 "example_io True"]
  have upd: "?p\<lparr>counts := Some (zero_counts(''raffle'' \<mapsto> 1))\<rparr>
               = example_product ''in_voting'' (zero_counts(''raffle'' \<mapsto> 1))"
    by (simp add: example_product_def)
  from T upd v show ?thesis
    by (simp add: example_ObjectId_example_id example_state_lookup example_product_sel
        zero_counts_raffle)
qed

subsection \<open>Votes outside the voting window\<close>

text \<open>
  Claim C2. When the identifier resolves to a product whose status is anything but
  \<open>in_voting\<close> (any other string, or no status at all), \<open>cast_vote\<close> fails with
  \<open>InvalidState\<close>, the \<open>HTTPException\<close> with status code 400 and detail
  "Voting not active", and the state (the product's counts with it) is left as it was.
\<close>

theorem cast_vote_rejects_inactive_product:
  assumes "ObjectId product_id = Some oid"
    and "db_product st oid = Some p"
    and "status p \<noteq> Some ''in_voting''"
  shows "cast_vote ObjectId env st product_id vote = (Inl InvalidState, st) \<and>
         InvalidState = HTTPException 400 ''Voting not active''"
  using cast_vote_not_active [of ObjectId product_id oid st p env vote] assms
  by (simp add: InvalidState_def)

theorem cast_vote_rejects_inactive_product_witness:
  "example_ObjectId example_id = Some example_id \<and>
   db_product (example_state (example_product ''vote_expired'' zero_counts)) example_id
     = Some (example_product ''vote_expired'' zero_counts) \<and>
   status (example_product ''vote_expired'' zero_counts) \<noteq> Some ''in_voting'' \<and>
   cast_vote example_ObjectId (example_io True)
     (example_state (example_product ''vote_expired'' zero_counts)) example_id
     \<lparr>option = ''auction'', desired_shares = None, desired_tickets = None\<rparr>
     = (Inl (HTTPException 400 ''Voting not active''),
        example_state (example_product ''vote_expired'' zero_counts))"
proof -
  let ?p = "example_product ''vote_expired'' zero_counts"
  have s: "status ?p \<noteq> Some ''in_voting''"
    by (simp add: example_product_sel)
  from cast_vote_rejects_inactive_product
    [of example_ObjectId example_id example_id "example_state ?p" ?p "example_io True"
        "\<lparr>option = ''auction'', desired_shares = None, desired_tickets = None\<rparr>"]
    example_ObjectId_example_id example_state_lookup [of ?p] s
  show ?thesis
    by simp
qed

subsection \<open>Votes for an unknown option\<close>

text \<open>
  Claim C3, as the code has it. \<open>cast_vote\<close> checks the status before the option. For a
  product whose status is \<open>in_voting\<close>, a vote whose option is not a key of the product's
  counts (which are empty when the document has none) fails with \<open>InvalidArgument\<close>, the
  \<open>HTTPException\<close> with status code 400 and detail "Invalid option". For a product of
  any other status the same vote fails with \<open>InvalidState\<close> instead. In both cases the
  status code is 400 and the state is left as it was.
\<close>

theorem cast_vote_rejects_unknown_option:
  assumes "ObjectId product_id = Some oid"
    and "db_product st oid = Some p"
    and "option vote \<notin> dom (get_counts p)"
  shows "cast_vote ObjectId env st product_id vote =
           (Inl (if status p = Some ''in_voting'' then InvalidArgument else InvalidState), st) \<and>
         InvalidArgument = HTTPException 400 ''Invalid option'' \<and>
         InvalidState = HTTPException 400 ''Voting not active''"
proof (cases "status p = Some ''in_voting''")
  case True
  from assms(3) have "get_counts p (option vote) = None"
    by (simp add: domIff)
  with cast_vote_unknown_option [of ObjectId product_id oid st p vote env] assms(1,2) True
  show ?thesis
    by (simp add: InvalidArgument_def InvalidState_def)
next
  case False
  with cast_vote_not_active [of ObjectId product_id oid st p env vote] assms(1,2)
  show ?thesis
    by (simp add: InvalidArgument_def InvalidState_def)
qed

theorem cast_vote_rejects_unknown_option_witness:
  "example_ObjectId example_id = Some example_id \<and>
   db_product (example_state (example_product ''in_voting'' [''auction'' \<mapsto> 4])) example_id
     = Some (example_product ''in_voting'' [''auction'' \<mapsto> 4]) \<and>
   ''raffle'' \<notin> dom (get_counts (example_product ''in_voting'' [''auction'' \<mapsto> 4])) \<and>
   cast_vote example_ObjectId (example_io True)
     (example_state (example_product ''in_voting'' [''auction'' \<mapsto> 4])) example_id
     \<lparr>option = ''raffle'', desired_shares = None, desired_tickets = None\<rparr>
     = (Inl (HTTPException 400 ''Invalid option''),
        example_state (example_product ''in_voting'' [''auction'' \<mapsto> 4]))"
proof -
  let ?p = "example_product ''in_voting'' [''auction'' \<mapsto> 4]"
  let ?v = "\<lparr>option = ''raffle'', desired_shares = None, desired_tickets = None\<rparr>"
  have k: "option ?v \<notin> dom (get_counts ?p)"
    by (simp add: example_product_sel)
  from cast_vote_rejects_unknown_option
    [of example_ObjectId example_id example_id "example_state ?p" ?p ?v "example_io True"]
    example_ObjectId_example_id example_state_lookup [of ?p] k
  show ?thesis
    by (simp add: example_product_sel)
qed

text \<open>
  The claim as the spec words it, for every product: a product in status \<open>draft\<close> whose
  counts do not hold \<open>raffle\<close> answers a vote for \<open>raffle\<close> with \<open>InvalidState\<close>, which
  is not \<open>InvalidArgument\<close>.
\<close>

theorem cast_vote_unknown_option_counterexample:
  "example_ObjectId example_id = Some example_id \<and>
   db_product (example_state (example_product ''draft'' [''auction'' \<mapsto> 4])) example_id
     = Some (example_product ''draft'' [''auction'' \<mapsto> 4]) \<and>
   VoteIn_valid \<lparr>option = ''raffle'', desired_shares = None, desired_tickets = None\<rparr> \<and>
   ''raffle'' \<notin> dom (get_counts (example_product ''draft'' [''auction'' \<mapsto> 4])) \<and>
   fst (cast_vote example_ObjectId (example_io True)
     (example_state (example_product ''draft'' [''auction'' \<mapsto> 4])) example_id
     \<lparr>option = ''raffle'', desired_shares = None, desired_tickets = None\<rparr>)
     = Inl InvalidState \<and>
   fst (cast_vote example_ObjectId (example_io True)
     (example_state (example_product ''draft'' [''auction'' \<mapsto> 4])) example_id
     \<lparr>option = ''raffle'', desired_shares = None, desired_tickets = None\<rparr>)
     \<noteq> Inl InvalidArgument"
proof -
  let ?p = "example_product ''draft'' [''auction'' \<mapsto> 4]"
  have s: "status ?p \<noteq> Some ''in_voting''"
    by (simp add: example_product_sel)
  have "cast_vote example_ObjectId (example_io True) (example_state ?p) example_id
          \<lparr>option = ''raffle'', desired_shares = None, desired_tickets = None\<rparr>
        = (Inl (HTTPException 400 ''Voting not active''), example_state ?p)"
    using cast_vote_not_active [of example_ObjectId example_id example_id "example_state ?p" ?p]
      example_ObjectId_example_id example_state_lookup [of ?p] s
    by simp
  then show ?thesis
    by (simp add: example_ObjectId_example_id example_state_lookup example_product_sel
        InvalidState_def InvalidArgument_def VoteIn_valid_def VoteOption_def)
qed

subsection \<open>The quantity hints\<close>

text \<open>
  Claim C9. \<open>cast_vote\<close> reads nothing of the vote but its option: two votes with the same
  option give the same response and the same state after the call (stored counts,
  registry and broadcast record alike), whatever their \<open>desired_shares\<close> and
  \<open>desired_tickets\<close> are.
\<close>

theorem cast_vote_ignores_quantity_hints:
  assumes "option vote = option vote'"
  shows "cast_vote ObjectId env st product_id vote = cast_vote ObjectId env st product_id vote'"
  unfolding cast_vote_def assms by (rule refl)

theorem cast_vote_ignores_quantity_hints_witness:
  "VoteIn_valid \<lparr>option = ''tokenization'', desired_shares = Some 10, desired_tickets = None\<rparr> \<and>
   VoteIn_valid \<lparr>option = ''tokenization'', desired_shares = None, desired_tickets = Some 3\<rparr> \<and>
   option \<lparr>option = ''tokenization'', desired_shares = Some 10, desired_tickets = None\<rparr>
     = option \<lparr>option = ''tokenization'', desired_shares = None, desired_tickets = Some 3\<rparr> \<and>
   cast_vote example_ObjectId (example_io True)
       (example_state (example_product ''in_voting'' zero_counts)) example_id
       \<lparr>option = ''tokenization'', desired_shares = Some 10, desired_tickets = None\<rparr>
     = cast_vote example_ObjectId (example_io True)
       (example_state (example_product ''in_voting'' zero_counts)) example_id
       \<lparr>option = ''tokenization'', desired_shares = None, desired_tickets = Some 3\<rparr> \<and>
   fst (cast_vote example_ObjectId (example_io True)
       (example_state (example_product ''in_voting'' zero_counts)) example_id
       \<lparr>option = ''tokenization'', desired_shares = Some 10, desired_tickets = None\<rparr>)
     = Inr (zero_counts(''tokenization'' \<mapsto> 1))"
proof -
  let ?p = "example_product ''in_voting'' zero_counts"
  let ?v = "\<lparr>option = ''tokenization'', desired_shares = Some (10::int), desired_tickets = None\<rparr>"
  let ?w = "\<lparr>option = ''tokenization'', desired_shares = None, desired_tickets = Some (3::int)\<rparr>"
  have same: "option ?v = option ?w"
    by simp
  have valid: "VoteIn_valid ?v" "VoteIn_valid ?w"
    by (simp_all add: VoteIn_valid_def VoteOption_def)
  have key: "get_counts ?p (option ?v) = Some 0"
    by (simp add: example_product_sel zero_counts_def)
  have res: "fst (cast_vote example_ObjectId (example_io True) (example_state ?p) example_id ?v)
               = Inr (zero_counts(''tokenization'' \<mapsto> 1))"
    using cast_vote_found
      [of example_ObjectId example_id example_id "example_state ?p" ?p ?v 0 "example_io True"]
      example_ObjectId_example_id example_state_lookup [of ?p] key
    by (simp add: example_product_sel)
  from cast_vote_ignores_quantity_hints
    [of ?v ?w example_ObjectId "example_io True" "example_state ?p" example_id, OF same]
    same valid res
  show ?thesis
    by simp
qed

subsection \<open>Failing sends\<close>

text \<open>
  Claim C5. A send that raises is swallowed. \<open>broadcast\<close> attempts one send per
  connection of the snapshot, in order, each with its own outcome, so a connection whose
  send raises takes nothing from the others. And nothing of a broadcast reaches the
  caller of \<open>cast_vote\<close>: the response, the store and the registry after the call are the
  same whichever sends raise and whether or not the hand-over to the event loop raises.
\<close>

theorem broadcast_failures_are_isolated:
  "broadcast send_json active product_id (message :: message) =
     map (\<lambda>w. (w, if send_json w message then Sent else Raised)) (get_active active product_id) \<and>
   fst (cast_vote ObjectId (env\<lparr>from_thread := reached, send_ok := send_json\<rparr>) st product_id vote)
     = fst (cast_vote ObjectId env st product_id vote) \<and>
   db_product (snd (cast_vote ObjectId (env\<lparr>from_thread := reached, send_ok := send_json\<rparr>)
                      st product_id vote))
     = db_product (snd (cast_vote ObjectId env st product_id vote)) \<and>
   manager (snd (cast_vote ObjectId env st product_id vote)) = manager st"
proof (intro conjI)
  have "broadcast_loop send_json snapshot message =
          map (\<lambda>w. (w, if send_json w message then Sent else Raised)) snapshot" for snapshot
    by (induction snapshot) simp_all
  then show "broadcast send_json active product_id message =
      map (\<lambda>w. (w, if send_json w message then Sent else Raised)) (get_active active product_id)"
    by (simp add: broadcast_def)
next
  show "fst (cast_vote ObjectId (env\<lparr>from_thread := reached, send_ok := send_json\<rparr>) st product_id vote)
     = fst (cast_vote ObjectId env st product_id vote)"
    by (simp add: cast_vote_def Let_def split: option.splits list.splits)
next
  show "db_product (snd (cast_vote ObjectId (env\<lparr>from_thread := reached, send_ok := send_json\<rparr>)
                      st product_id vote))
     = db_product (snd (cast_vote ObjectId env st product_id vote))"
    by (simp add: cast_vote_def Let_def split: option.splits list.splits)
next
  show "manager (snd (cast_vote ObjectId env st product_id vote)) = manager st"
    by (simp add: cast_vote_def Let_def update_one_def split: option.splits list.splits)
qed

text \<open>
  In the example state connections 1 and 2 listen and the send to 1 raises: connection 2
  is still sent to, and the vote succeeds as it does when the hand-over itself raises.
\<close>

theorem broadcast_failures_are_isolated_witness:
  "broadcast (\<lambda>w m. w \<noteq> 1) [example_id \<mapsto> [1, 2]] example_id
     \<lparr>msg_type = ''votes.update'', msg_product_id = example_id,
      msg_counts = zero_counts(''auction'' \<mapsto> 1),
      msg_server_time = now (example_io True)\<rparr>
     = [(1, Raised), (2, Sent)] \<and>
   fst (cast_vote example_ObjectId (example_io True)
          (example_state (example_product ''in_voting'' zero_counts)) example_id
          \<lparr>option = ''auction'', desired_shares = None, desired_tickets = None\<rparr>)
     = Inr (zero_counts(''auction'' \<mapsto> 1)) \<and>
   fst (cast_vote example_ObjectId (example_io False)
          (example_state (example_product ''in_voting'' zero_counts)) example_id
          \<lparr>option = ''auction'', desired_shares = None, desired_tickets = None\<rparr>)
     = Inr (zero_counts(''auction'' \<mapsto> 1))"
proof -
  let ?p = "example_product ''in_voting'' zero_counts"
  let ?v = "\<lparr>option = ''auction'', desired_shares = None, desired_tickets = None\<rparr>"
  let ?m = "\<lparr>msg_type = ''votes.update'', msg_product_id = example_id,
             msg_counts = zero_counts(''auction'' \<mapsto> 1),
             msg_server_time = now (example_io True)\<rparr>"
  have key: "get_counts ?p (option ?v) = Some 0"
    by (simp add: example_product_sel zero_counts_def)
  have res: "fst (cast_vote example_ObjectId (example_io False) (example_state ?p) example_id ?v)
               = Inr (zero_counts(''auction'' \<mapsto> 1))"
    using cast_vote_found
      [of example_ObjectId example_id example_id "example_state ?p" ?p ?v 0 "example_io False"]
      example_ObjectId_example_id example_state_lookup [of ?p] key
    by (simp add: example_product_sel)
  have io: "(example_io False)\<lparr>from_thread := True, send_ok := \<lambda>w m. w \<noteq> 1\<rparr> = example_io True"
    by (simp add: example_io_def)
  note T = broadcast_failures_are_isolated
    [where send_json = "\<lambda>w m. w \<noteq> 1" and active = "[example_id \<mapsto> [1, 2]]"
       and product_id = example_id and message = ?m and ObjectId = example_ObjectId
       and env = "example_io False" and reached = True and st = "example_state ?p" and vote = ?v]
  from T have "broadcast (\<lambda>w m. w \<noteq> 1) [example_id \<mapsto> [1, 2]] example_id ?m
                 = [(1, Raised), (2, Sent)]"
    by (simp add: get_active_def)
  moreover from T res io
  have "fst (cast_vote example_ObjectId (example_io True) (example_state ?p) example_id ?v)
          = Inr (zero_counts(''auction'' \<mapsto> 1))"
    by simp
  ultimately show ?thesis
    using res by simp
qed

section \<open>Properties of product creation\<close>

lemma timedelta_hours_default: "timedelta_hours (DEFAULT_WINDOW_HOURS None) = Inr 259200000000"
  by (simp add: timedelta_hours_def DEFAULT_WINDOW_HOURS_def)

lemma datetime_add_in_range:
  assumes "0 \<le> wall t + delta" and "wall t + delta < 315537897600000000"
  shows "datetime_add t delta = Inr (t\<lparr>wall := wall t + delta\<rparr>)"
proof -
  have "0 < (wall t + delta) div 86400000000 + 1"
    using assms(1) by arith
  moreover have "(wall t + delta) div 86400000000 + 1 \<le> 3652059"
    using assms(2) by arith
  ultimately show ?thesis
    by (simp add: datetime_add_def Let_def)
qed

text \<open>
  Claim C8. With \<^verbatim>\<open>VOTE_WINDOW_HOURS\<close> not set, a payload without
  \<^verbatim>\<open>vote_start_at\<close>, and a clock that reads a \<^verbatim>\<open>datetime\<close> with 72 hours to
  spare before the end of the year 9999, \<open>create_product\<close> succeeds; the document it
  returns, which is the one it stores under the new identifier, has status \<open>in_voting\<close>,
  \<^verbatim>\<open>vote_start_at\<close> equal to the clock's reading, \<^verbatim>\<open>vote_end_at\<close> equal to
  \<^verbatim>\<open>vote_start_at\<close> plus 72 hours (259200000000 microseconds), and counts with the five
  options at zero.
\<close>

theorem create_product_defaults:
  assumes "in_vote_start_at payload = None"
    and "0 \<le> wall clock"
    and "wall clock + 259200000000 < 315537897600000000"
  shows "\<exists>doc. create_product None clock new_id st payload =
                 (Inr (new_id, doc), st\<lparr>db_product := (db_product st)(new_id \<mapsto> doc)\<rparr>) \<and>
               status doc = Some ''in_voting'' \<and>
               vote_start_at doc = clock \<and>
               vote_end_at doc = clock\<lparr>wall := wall (vote_start_at doc) + 72 * 3600000000\<rparr> \<and>
               counts doc = Some [''auction'' \<mapsto> 0, ''buy_now'' \<mapsto> 0, ''tokenization'' \<mapsto> 0,
                                  ''raffle'' \<mapsto> 0, ''not_interested'' \<mapsto> 0]"
proof -
  have add: "datetime_add clock 259200000000 = Inr (clock\<lparr>wall := wall clock + 259200000000\<rparr>)"
    using assms(2,3) by (intro datetime_add_in_range) simp_all
  show ?thesis
    by (simp add: create_product_def assms(1) timedelta_hours_default add create_document_def
        Let_def)
qed

theorem create_product_defaults_witness:
  "in_vote_start_at
     \<lparr>in_title = ''Vase'', in_description = None, in_images = [],
      in_auction_start_price = None, in_buy_now_price = None, in_shares_total = Some 100,
      in_share_price = None, in_raffle_tickets_total = None, in_raffle_ticket_price = None,
      in_vote_start_at = None\<rparr> = None \<and>
   0 \<le> wall \<lparr>wall = 63929260800000000, tzinfo = Some 0\<rparr> \<and>
   wall \<lparr>wall = 63929260800000000, tzinfo = Some 0\<rparr> + 259200000000 < 315537897600000000 \<and>
   create_product None \<lparr>wall = 63929260800000000, tzinfo = Some 0\<rparr> example_id
     \<lparr>db_product = Map.empty, manager = Map.empty, emitted = []\<rparr>
     \<lparr>in_title = ''Vase'', in_description = None, in_images = [],
      in_auction_start_price = None, in_buy_now_price = None, in_shares_total = Some 100,
      in_share_price = None, in_raffle_tickets_total = None, in_raffle_ticket_price = None,
      in_vote_start_at = None\<rparr>
   = (Inr (example_id, example_product ''in_voting'' zero_counts),
      \<lparr>db_product = [example_id \<mapsto> example_product ''in_voting'' zero_counts],
       manager = Map.empty, emitted = []\<rparr>)"
proof -
  let ?payload = "\<lparr>in_title = ''Vase'', in_description = None, in_images = [],
      in_auction_start_price = None, in_buy_now_price = None, in_shares_total = Some 100,
      in_share_price = None, in_raffle_tickets_total = None, in_raffle_ticket_price = None,
      in_vote_start_at = None\<rparr>"
  let ?clock = "\<lparr>wall = 63929260800000000, tzinfo = Some 0\<rparr>"
  let ?st = "\<lparr>db_product = Map.empty, manager = Map.empty, emitted = []\<rparr>"
  have h: "in_vote_start_at ?payload = None" "0 \<le> wall ?clock"
    "wall ?clock + 259200000000 < 315537897600000000"
    by simp_all
  from create_product_defaults [of ?payload ?clock example_id ?st, OF h]
  obtain doc where
    r: "create_product None ?clock example_id ?st ?payload =
          (Inr (example_id, doc), ?st\<lparr>db_product := (db_product ?st)(example_id \<mapsto> doc)\<rparr>)"
    by blast
  have "create_product None ?clock example_id ?st ?payload =
          (Inr (example_id, example_product ''in_voting'' zero_counts),
           \<lparr>db_product = [example_id \<mapsto> example_product ''in_voting'' zero_counts],
            manager = Map.empty, emitted = []\<rparr>)"
    by (simp add: create_product_def timedelta_hours_default datetime_add_def create_document_def
        example_product_def zero_counts_def Let_def)
  with h r show ?thesis
    by simp
qed

section \<open>Properties of runs of votes\<close>

lemma counts_le_refl: "counts_le c c"
  by (simp add: counts_le_def split: option.splits)

lemma counts_le_trans:
  assumes "counts_le a b" and "counts_le b c"
  shows "counts_le a c"
  unfolding counts_le_def
proof
  fix k
  from assms have a: "case a k of None \<Rightarrow> True
      | Some n \<Rightarrow> (case b k of None \<Rightarrow> False | Some m \<Rightarrow> n \<le> m)"
    and b: "case b k of None \<Rightarrow> True
      | Some n \<Rightarrow> (case c k of None \<Rightarrow> False | Some m \<Rightarrow> n \<le> m)"
    by (simp_all add: counts_le_def)
  then show "case a k of None \<Rightarrow> True
      | Some n \<Rightarrow> (case c k of None \<Rightarrow> False | Some m \<Rightarrow> n \<le> m)"
    by (auto split: option.splits)
qed

lemma counts_le_increment: "c k = Some n \<Longrightarrow> counts_le c (c(k \<mapsto> n + 1))"
  by (auto simp: counts_le_def split: option.splits)

lemma stored_counts_update_one:
  "db_product st oid = Some p \<Longrightarrow>
   stored_counts (update_one st oid c) oid' = (if oid' = oid then c else stored_counts st oid')"
  by (simp add: stored_counts_def update_one_def get_counts_def)

lemma stored_counts_emitted [simp]: "stored_counts (st\<lparr>emitted := es\<rparr>) = stored_counts st"
  by (simp add: stored_counts_def fun_eq_iff)

lemma emitted_update_one [simp]: "emitted (update_one st oid c) = emitted st"
  by (simp add: update_one_def split: option.splits)

lemma cast_vote_cases:
  obtains (failed) e where "cast_vote ObjectId env st product_id vote = (Inl e, st)"
  | (voted) oid p n where "ObjectId product_id = Some oid" and "db_product st oid = Some p"
      and "status p = Some ''in_voting''" and "get_counts p (option vote) = Some n"
proof (cases "ObjectId product_id")
  case None
  then show ?thesis
    using failed cast_vote_no_product [of ObjectId product_id st env vote] by blast
next
  case (Some oid)
  show ?thesis
  proof (cases "db_product st oid")
    case None
    with Some show ?thesis
      using failed cast_vote_no_product [of ObjectId product_id st env vote] by blast
  next
    case p: (Some p)
    show ?thesis
    proof (cases "status p = Some ''in_voting''")
      case False
      with Some p show ?thesis
        using failed cast_vote_not_active [of ObjectId product_id oid st p env vote] by blast
    next
      case True
      show ?thesis
      proof (cases "get_counts p (option vote)")
        case None
        with Some p True show ?thesis
          using failed cast_vote_unknown_option [of ObjectId product_id oid st p vote env] by blast
      next
        case (Some n)
        with \<open>ObjectId product_id = Some oid\<close> p True show ?thesis
          using voted by blast
      qed
    qed
  qed
qed

text \<open>
  One request: the stored counts of no document go down, and a broadcast it adds to the
  record is for the topic of the request and carries the counts stored after it.
\<close>

lemma cast_vote_step:
  fixes ObjectId env st product_id vote
  defines "st' \<equiv> snd (cast_vote ObjectId env st product_id vote)"
  shows "counts_le (stored_counts st oid') (stored_counts st' oid')"
    and "\<exists>es. emitted st' = emitted st @ es \<and> length es \<le> 1 \<and>
           (\<forall>e \<in> set es. \<exists>oid. ObjectId (topic e) = Some oid \<and>
              msg_counts (sent e) = stored_counts st' oid)"
proof -
  have "counts_le (stored_counts st oid') (stored_counts st' oid') \<and>
        (\<exists>es. emitted st' = emitted st @ es \<and> length es \<le> 1 \<and>
           (\<forall>e \<in> set es. \<exists>oid. ObjectId (topic e) = Some oid \<and>
              msg_counts (sent e) = stored_counts st' oid))"
  proof (cases rule: cast_vote_cases [where ObjectId = ObjectId and env = env and st = st
        and product_id = product_id and vote = vote])
    case (failed e)
    then have "st' = st"
      by (simp add: st'_def)
    then show ?thesis
      by (simp add: counts_le_refl)
  next
    case (voted oid p n)
    let ?c = "(get_counts p)(option vote \<mapsto> n + 1)"
    note found = cast_vote_found [of ObjectId product_id oid st p vote n env, OF voted]
    have stored: "stored_counts st oid = get_counts p"
      using voted(2) by (simp add: stored_counts_def)
    have after: "stored_counts st' oid'' = (if oid'' = oid then ?c else stored_counts st oid'')"
      for oid''
      unfolding st'_def found
      by (simp add: stored_counts_update_one [OF voted(2)])
    have le: "counts_le (stored_counts st oid') (stored_counts st' oid')"
      using counts_le_increment [of "get_counts p" "option vote" n, OF voted(4)] by (simp add: after stored counts_le_refl)
    show ?thesis
    proof (cases "from_thread env")
      case False
      then have "emitted st' = emitted st @ []"
        unfolding st'_def found by simp
      with le show ?thesis
        by simp
    next
      case True
      define e where "e = \<lparr>topic = product_id,
          sent = \<lparr>msg_type = ''votes.update'', msg_product_id = product_id,
                   msg_counts = ?c, msg_server_time = now env\<rparr>,
          attempts = broadcast (send_ok env) (manager st) product_id
                       \<lparr>msg_type = ''votes.update'', msg_product_id = product_id,
                         msg_counts = ?c, msg_server_time = now env\<rparr>\<rparr>"
      from True have em: "emitted st' = emitted st @ [e]"
        unfolding st'_def found e_def by simp
      have "ObjectId (topic e) = Some oid \<and> msg_counts (sent e) = stored_counts st' oid"
        using voted(1) by (simp add: e_def after)
      with em le show ?thesis
        by auto
    qed
  qed
  then show "counts_le (stored_counts st oid') (stored_counts st' oid')"
    and "\<exists>es. emitted st' = emitted st @ es \<and> length es \<le> 1 \<and>
           (\<forall>e \<in> set es. \<exists>oid. ObjectId (topic e) = Some oid \<and>
              msg_counts (sent e) = stored_counts st' oid)"
    by blast+
qed

lemma snd_cast_votes_Cons:
  "snd (cast_votes ObjectId st ((env, product_id, vote) # calls)) =
     snd (cast_votes ObjectId (snd (cast_vote ObjectId env st product_id vote)) calls)"
  by (simp split: prod.splits)

lemma fst_cast_votes_Cons:
  "fst (cast_votes ObjectId st ((env, product_id, vote) # calls)) =
     fst (cast_vote ObjectId env st product_id vote) #
     fst (cast_votes ObjectId (snd (cast_vote ObjectId env st product_id vote)) calls)"
  by (simp split: prod.splits)

lemma sorted_wrt_short: "length xs \<le> 1 \<Longrightarrow> sorted_wrt P xs"
  by (cases xs) auto

lemma counts_sent_to_append:
  "counts_sent_to t (es @ es') = counts_sent_to t es @ counts_sent_to t es'"
  by (simp add: counts_sent_to_def)

lemma length_counts_sent_to: "length (counts_sent_to t es) \<le> length es"
  by (simp add: counts_sent_to_def)

lemma in_counts_sent_to:
  "x \<in> set (counts_sent_to t es) \<longleftrightarrow> (\<exists>e \<in> set es. topic e = t \<and> x = msg_counts (sent e))"
  by (auto simp: counts_sent_to_def)

text \<open>
  A run of requests: the stored counts of no document go down; every broadcast added to
  the record carries counts that are not below those stored at the start; and the counts
  carried for one topic never go down from one broadcast to a later one.
\<close>

lemma cast_votes_run:
  "\<exists>es. emitted (snd (cast_votes ObjectId st calls)) = emitted st @ es \<and>
     (\<forall>oid. counts_le (stored_counts st oid)
              (stored_counts (snd (cast_votes ObjectId st calls)) oid)) \<and>
     (\<forall>e \<in> set es. \<exists>oid. ObjectId (topic e) = Some oid \<and>
        counts_le (stored_counts st oid) (msg_counts (sent e))) \<and>
     (\<forall>t. sorted_wrt counts_le (counts_sent_to t es))"
proof (induction calls arbitrary: st)
  case Nil
  show ?case
    by (simp add: counts_le_refl counts_sent_to_def)
next
  case (Cons call calls)
  obtain env product_id vote where call: "call = (env, product_id, vote)"
    by (cases call)
  define st1 where "st1 = snd (cast_vote ObjectId env st product_id vote)"
  define st2 where "st2 = snd (cast_votes ObjectId st1 calls)"
  have run: "snd (cast_votes ObjectId st (call # calls)) = st2"
    unfolding call st1_def st2_def by (rule snd_cast_votes_Cons)
  have mono1: "counts_le (stored_counts st oid) (stored_counts st1 oid)" for oid
    unfolding st1_def by (rule cast_vote_step(1))
  from cast_vote_step(2) [of ObjectId env st product_id vote]
  obtain es1 where em1: "emitted st1 = emitted st @ es1"
    and short: "length es1 \<le> 1"
    and carried1: "\<forall>e \<in> set es1. \<exists>oid. ObjectId (topic e) = Some oid \<and>
                     msg_counts (sent e) = stored_counts st1 oid"
    unfolding st1_def by blast
  from Cons.IH [of st1]
  obtain es2 where em2: "emitted st2 = emitted st1 @ es2"
    and mono2: "\<forall>oid. counts_le (stored_counts st1 oid) (stored_counts st2 oid)"
    and carried2: "\<forall>e \<in> set es2. \<exists>oid. ObjectId (topic e) = Some oid \<and>
                     counts_le (stored_counts st1 oid) (msg_counts (sent e))"
    and sorted2: "\<forall>t. sorted_wrt counts_le (counts_sent_to t es2)"
    unfolding st2_def by blast
  have em: "emitted st2 = emitted st @ (es1 @ es2)"
    by (simp add: em1 em2)
  have mono: "counts_le (stored_counts st oid) (stored_counts st2 oid)" for oid
    using mono1 [of oid] mono2 by (blast intro: counts_le_trans)
  have carried: "\<exists>oid. ObjectId (topic e) = Some oid \<and>
                   counts_le (stored_counts st oid) (msg_counts (sent e))"
    if "e \<in> set (es1 @ es2)" for e
  proof (cases "e \<in> set es1")
    case True
    with carried1 obtain oid where "ObjectId (topic e) = Some oid"
      and "msg_counts (sent e) = stored_counts st1 oid"
      by blast
    with mono1 [of oid] show ?thesis
      by simp
  next
    case False
    with that have "e \<in> set es2"
      by simp
    with carried2 obtain oid where "ObjectId (topic e) = Some oid"
      and "counts_le (stored_counts st1 oid) (msg_counts (sent e))"
      by blast
    with mono1 [of oid] show ?thesis
      by (blast intro: counts_le_trans)
  qed
  have sorted: "sorted_wrt counts_le (counts_sent_to t (es1 @ es2))" for t
  proof -
    have "length (counts_sent_to t es1) \<le> 1"
      using short length_counts_sent_to [of t es1] by simp
    then have s1: "sorted_wrt counts_le (counts_sent_to t es1)"
      by (rule sorted_wrt_short)
    have cross: "counts_le x y"
      if x: "x \<in> set (counts_sent_to t es1)" and y: "y \<in> set (counts_sent_to t es2)" for x y
    proof -
      from x obtain e1 where e1: "e1 \<in> set es1" "topic e1 = t" "x = msg_counts (sent e1)"
        by (auto simp: in_counts_sent_to)
      from y obtain e2 where e2: "e2 \<in> set es2" "topic e2 = t" "y = msg_counts (sent e2)"
        by (auto simp: in_counts_sent_to)
      from carried1 e1 obtain oid1 where o1: "ObjectId t = Some oid1"
        "x = stored_counts st1 oid1"
        by auto
      from carried2 e2 obtain oid2 where o2: "ObjectId t = Some oid2"
        "counts_le (stored_counts st1 oid2) y"
        by auto
      from o1 o2 show ?thesis
        by simp
    qed
    from s1 sorted2 cross show ?thesis
      by (simp add: counts_sent_to_append sorted_wrt_append)
  qed
  from em mono carried sorted show ?case
    unfolding run by blast
qed

lemma emitted_by_sorted:
  "sorted_wrt counts_le (counts_sent_to t (emitted_by ObjectId st calls))"
proof -
  from cast_votes_run [of ObjectId st calls]
  obtain es where "emitted (snd (cast_votes ObjectId st calls)) = emitted st @ es"
    and "\<forall>t. sorted_wrt counts_le (counts_sent_to t es)"
    by blast
  then show ?thesis
    by (simp add: emitted_by_def)
qed

text \<open>Two votes for the same option on a product in voting, both handed to the event loop.\<close>

lemma cast_vote_twice:
  assumes oid: "ObjectId product_id = Some oid"
    and p: "db_product st oid = Some p"
    and active: "status p = Some ''in_voting''"
    and c: "counts p = Some c"
    and n: "c k = Some n"
    and v1: "option vote1 = k" and v2: "option vote2 = k"
  shows "fst (cast_votes ObjectId st [(env1, product_id, vote1), (env2, product_id, vote2)])
           = [Inr (c(k \<mapsto> n + 1)), Inr (c(k \<mapsto> n + 2))]"
    and "stored_counts (snd (cast_votes ObjectId st
           [(env1, product_id, vote1), (env2, product_id, vote2)])) oid = c(k \<mapsto> n + 2)"
    and "from_thread env1 \<Longrightarrow> from_thread env2 \<Longrightarrow>
         map (\<lambda>e. (topic e, msg_counts (sent e)))
           (emitted_by ObjectId st [(env1, product_id, vote1), (env2, product_id, vote2)])
           = [(product_id, c(k \<mapsto> n + 1)), (product_id, c(k \<mapsto> n + 2))]"
proof -
  let ?c1 = "c(k \<mapsto> n + 1)"
  let ?c2 = "c(k \<mapsto> n + 2)"
  define st1 where "st1 = snd (cast_vote ObjectId env1 st product_id vote1)"
  define st2 where "st2 = snd (cast_vote ObjectId env2 st1 product_id vote2)"
  have gc: "get_counts p = c"
    using c by (simp add: get_counts_def)
  have key1: "get_counts p (option vote1) = Some n"
    using n v1 gc by simp
  note first = cast_vote_found [of ObjectId product_id oid st p vote1 n env1, OF oid p active key1]
  have r1: "fst (cast_vote ObjectId env1 st product_id vote1) = Inr ?c1"
    by (simp add: first gc v1)
  have p1: "db_product st1 oid = Some (p\<lparr>counts := Some ?c1\<rparr>)"
    unfolding st1_def first by (simp add: update_one_found [OF p] gc v1)
  have em1: "map (\<lambda>e. (topic e, msg_counts (sent e))) (emitted st1)
               = map (\<lambda>e. (topic e, msg_counts (sent e))) (emitted st) @ [(product_id, ?c1)]"
    if "from_thread env1"
    unfolding st1_def first using that by (simp add: gc v1)
  have active1: "status (p\<lparr>counts := Some ?c1\<rparr>) = Some ''in_voting''"
    using active by simp
  have key2: "get_counts (p\<lparr>counts := Some ?c1\<rparr>) (option vote2) = Some (n + 1)"
    by (simp add: get_counts_def v2)
  note second = cast_vote_found
    [of ObjectId product_id oid st1 "p\<lparr>counts := Some ?c1\<rparr>" vote2 "n + 1" env2,
     OF oid p1 active1 key2]
  have gc1: "(get_counts (p\<lparr>counts := Some ?c1\<rparr>))(option vote2 \<mapsto> n + 1 + 1) = ?c2"
    by (simp add: get_counts_def v2 add.commute)
  have r2: "fst (cast_vote ObjectId env2 st1 product_id vote2) = Inr ?c2"
    unfolding second gc1 by simp
  have p2: "stored_counts st2 oid = ?c2"
    unfolding st2_def second gc1
    by (simp add: stored_counts_update_one [OF p1])
  have em2: "map (\<lambda>e. (topic e, msg_counts (sent e))) (emitted st2)
               = map (\<lambda>e. (topic e, msg_counts (sent e))) (emitted st)
                 @ [(product_id, ?c1), (product_id, ?c2)]"
    if "from_thread env1" and "from_thread env2"
    unfolding st2_def second gc1 using that by (simp add: em1)
  have run: "snd (cast_votes ObjectId st [(env1, product_id, vote1), (env2, product_id, vote2)])
               = st2"
    by (simp add: snd_cast_votes_Cons st1_def st2_def del: cast_votes.simps(2))
  show "fst (cast_votes ObjectId st [(env1, product_id, vote1), (env2, product_id, vote2)])
           = [Inr ?c1, Inr ?c2]"
    using r1 r2 by (simp add: fst_cast_votes_Cons st1_def del: cast_votes.simps(2))
  show "stored_counts (snd (cast_votes ObjectId st
           [(env1, product_id, vote1), (env2, product_id, vote2)])) oid = ?c2"
    by (simp only: run p2)
  assume e: "from_thread env1" "from_thread env2"
  have "map (\<lambda>e. (topic e, msg_counts (sent e))) (drop (length (emitted st)) (emitted st2))
          = drop (length (emitted st)) (map (\<lambda>e. (topic e, msg_counts (sent e))) (emitted st2))"
    by (simp add: drop_map)
  also have "\<dots> = [(product_id, ?c1), (product_id, ?c2)]"
    by (simp add: em2 [OF e])
  finally show "map (\<lambda>e. (topic e, msg_counts (sent e)))
           (emitted_by ObjectId st [(env1, product_id, vote1), (env2, product_id, vote2)])
           = [(product_id, ?c1), (product_id, ?c2)]"
    unfolding emitted_by_def run .
qed

lemma counts_sent_to_pairs:
  "counts_sent_to t es =
     map snd (filter (\<lambda>x. fst x = t) (map (\<lambda>e. (topic e, msg_counts (sent e))) es))"
  by (induction es) (simp_all add: counts_sent_to_def)

subsection \<open>Counts carried by successive broadcasts\<close>

text \<open>
  Claim C7. In every run of requests to the vote endpoint, from any state, the counts
  carried by the broadcasts of one topic never go down from one broadcast to a later one:
  every option counted in the earlier message is counted in the later one, with a value
  that is not smaller. In particular, two votes for \<open>raffle\<close> on a product in voting
  whose \<open>raffle\<close> counter is at \<open>n\<close> both succeed, leave the stored counter at
  \<open>n + 2\<close> and every other counter as it was, and, when both hand-overs to the event
  loop go through, add exactly two broadcasts for the product, carrying \<open>raffle\<close> at
  \<open>n + 1\<close> and then at \<open>n + 2\<close>; for a product whose counter is at 0, as
  \<open>create_product\<close> leaves it, these are 2, and 1 and then 2.
\<close>

theorem broadcast_counts_never_decrease:
  "sorted_wrt counts_le (counts_sent_to t (emitted_by ObjectId st calls)) \<and>
   (ObjectId product_id = Some oid \<longrightarrow> db_product st oid = Some p \<longrightarrow>
    status p = Some ''in_voting'' \<longrightarrow> counts p = Some c \<longrightarrow> c ''raffle'' = Some n \<longrightarrow>
    option vote1 = ''raffle'' \<longrightarrow> option vote2 = ''raffle'' \<longrightarrow>
      fst (cast_votes ObjectId st [(env1, product_id, vote1), (env2, product_id, vote2)])
        = [Inr (c(''raffle'' \<mapsto> n + 1)), Inr (c(''raffle'' \<mapsto> n + 2))] \<and>
      stored_counts (snd (cast_votes ObjectId st
          [(env1, product_id, vote1), (env2, product_id, vote2)])) oid
        = c(''raffle'' \<mapsto> n + 2) \<and>
      (\<forall>k. k \<noteq> ''raffle'' \<longrightarrow> (c(''raffle'' \<mapsto> n + 2)) k = c k) \<and>
      (from_thread env1 \<longrightarrow> from_thread env2 \<longrightarrow>
         length (emitted_by ObjectId st [(env1, product_id, vote1), (env2, product_id, vote2)]) = 2 \<and>
         counts_sent_to product_id
           (emitted_by ObjectId st [(env1, product_id, vote1), (env2, product_id, vote2)])
           = [c(''raffle'' \<mapsto> n + 1), c(''raffle'' \<mapsto> n + 2)]))"
proof (intro conjI impI allI)
  show "sorted_wrt counts_le (counts_sent_to t (emitted_by ObjectId st calls))"
    by (rule emitted_by_sorted)
next
  fix k :: string
  assume "k \<noteq> ''raffle''"
  then show "(c(''raffle'' \<mapsto> n + 2)) k = c k"
    by simp
next
  assume h: "ObjectId product_id = Some oid" "db_product st oid = Some p"
    "status p = Some ''in_voting''" "counts p = Some c" "c ''raffle'' = Some n"
    "option vote1 = ''raffle''" "option vote2 = ''raffle''"
  let ?calls = "[(env1, product_id, vote1), (env2, product_id, vote2)]"
  note twice = cast_vote_twice
    [of ObjectId product_id oid st p c "''raffle''" n vote1 vote2 env1 env2, OF h]
  from twice(1) show "fst (cast_votes ObjectId st ?calls)
        = [Inr (c(''raffle'' \<mapsto> n + 1)), Inr (c(''raffle'' \<mapsto> n + 2))]" .
  from twice(2)
  show "stored_counts (snd (cast_votes ObjectId st ?calls)) oid = c(''raffle'' \<mapsto> n + 2)" .
  assume e: "from_thread env1" "from_thread env2"
  note sent = twice(3) [OF e]
  from sent have "length (map (\<lambda>e. (topic e, msg_counts (sent e)))
                     (emitted_by ObjectId st ?calls)) = 2"
    by simp
  then show "length (emitted_by ObjectId st ?calls) = 2"
    by simp
  from sent show "counts_sent_to product_id (emitted_by ObjectId st ?calls)
      = [c(''raffle'' \<mapsto> n + 1), c(''raffle'' \<mapsto> n + 2)]"
    by (simp add: counts_sent_to_pairs)
qed

theorem broadcast_counts_never_decrease_witness:
  "sorted_wrt counts_le (counts_sent_to example_id
     (emitted_by example_ObjectId (example_state (example_product ''in_voting'' zero_counts))
        [(example_io True, example_id,
          \<lparr>option = ''raffle'', desired_shares = None, desired_tickets = Some 1\<rparr>),
         (example_io True, example_id,
          \<lparr>option = ''raffle'', desired_shares = None, desired_tickets = Some 5\<rparr>)])) \<and>
   fst (cast_votes example_ObjectId (example_state (example_product ''in_voting'' zero_counts))
        [(example_io True, example_id,
          \<lparr>option = ''raffle'', desired_shares = None, desired_tickets = Some 1\<rparr>),
         (example_io True, example_id,
          \<lparr>option = ''raffle'', desired_shares = None, desired_tickets = Some 5\<rparr>)])
     = [Inr (zero_counts(''raffle'' \<mapsto> 1)), Inr (zero_counts(''raffle'' \<mapsto> 2))] \<and>
   stored_counts
     (snd (cast_votes example_ObjectId (example_state (example_product ''in_voting'' zero_counts))
        [(example_io True, example_id,
          \<lparr>option = ''raffle'', desired_shares = None, desired_tickets = Some 1\<rparr>),
         (example_io True, example_id,
          \<lparr>option = ''raffle'', desired_shares = None, desired_tickets = Some 5\<rparr>)]))
     example_id
     = zero_counts(''raffle'' \<mapsto> 2) \<and>
   (zero_counts(''raffle'' \<mapsto> 2)) ''raffle'' = Some 2 \<and>
   (zero_counts(''raffle'' \<mapsto> 2)) ''auction'' = Some 0 \<and>
   (zero_counts(''raffle'' \<mapsto> 2)) ''buy_now'' = Some 0 \<and>
   (zero_counts(''raffle'' \<mapsto> 2)) ''tokenization'' = Some 0 \<and>
   (zero_counts(''raffle'' \<mapsto> 2)) ''not_interested'' = Some 0 \<and>
   length (emitted_by example_ObjectId (example_state (example_product ''in_voting'' zero_counts))
        [(example_io True, example_id,
          \<lparr>option = ''raffle'', desired_shares = None, desired_tickets = Some 1\<rparr>),
         (example_io True, example_id,
          \<lparr>option = ''raffle'', desired_shares = None, desired_tickets = Some 5\<rparr>)]) = 2 \<and>
   counts_sent_to example_id
     (emitted_by example_ObjectId (example_state (example_product ''in_voting'' zero_counts))
        [(example_io True, example_id,
          \<lparr>option = ''raffle'', desired_shares = None, desired_tickets = Some 1\<rparr>),
         (example_io True, example_id,
          \<lparr>option = ''raffle'', desired_shares = None, desired_tickets = Some 5\<rparr>)])
     = [zero_counts(''raffle'' \<mapsto> 1), zero_counts(''raffle'' \<mapsto> 2)]"
proof -
  let ?p = "example_product ''in_voting'' zero_counts"
  let ?st = "example_state ?p"
  let ?v1 = "\<lparr>option = ''raffle'', desired_shares = None, desired_tickets = Some (1::int)\<rparr>"
  let ?v2 = "\<lparr>option = ''raffle'', desired_shares = None, desired_tickets = Some (5::int)\<rparr>"
  let ?calls = "[(example_io True, example_id, ?v1), (example_io True, example_id, ?v2)]"
  note T = broadcast_counts_never_decrease
    [where t = example_id and ObjectId = example_ObjectId and st = ?st and calls = ?calls
       and product_id = example_id and oid = example_id and p = ?p and c = zero_counts
       and n = 0 and ?vote1.0 = ?v1 and ?vote2.0 = ?v2
       and ?env1.0 = "example_io True" and ?env2.0 = "example_io True"]
  have reached: "from_thread (example_io True)"
    by (simp add: example_io_def)
  have zeros: "zero_counts ''auction'' = Some 0" "zero_counts ''buy_now'' = Some 0"
    "zero_counts ''tokenization'' = Some 0" "zero_counts ''not_interested'' = Some 0"
    by (simp_all add: zero_counts_def)
  from T have mono: "sorted_wrt counts_le
      (counts_sent_to example_id (emitted_by example_ObjectId ?st ?calls))"
    by (rule conjunct1)
  from T have rest:
    "fst (cast_votes example_ObjectId ?st ?calls)
       = [Inr (zero_counts(''raffle'' \<mapsto> 1)), Inr (zero_counts(''raffle'' \<mapsto> 2))] \<and>
     stored_counts (snd (cast_votes example_ObjectId ?st ?calls)) example_id
       = zero_counts(''raffle'' \<mapsto> 2) \<and>
     length (emitted_by example_ObjectId ?st ?calls) = 2 \<and>
     counts_sent_to example_id (emitted_by example_ObjectId ?st ?calls)
       = [zero_counts(''raffle'' \<mapsto> 1), zero_counts(''raffle'' \<mapsto> 2)]"
    by (simp add: example_ObjectId_example_id example_state_lookup example_product_sel
        zero_counts_raffle reached del: cast_votes.simps)
  have vals: "(zero_counts(''raffle'' \<mapsto> 2)) ''raffle'' = Some 2"
    "(zero_counts(''raffle'' \<mapsto> 2)) ''auction'' = Some 0"
    "(zero_counts(''raffle'' \<mapsto> 2)) ''buy_now'' = Some 0"
    "(zero_counts(''raffle'' \<mapsto> 2)) ''tokenization'' = Some 0"
    "(zero_counts(''raffle'' \<mapsto> 2)) ''not_interested'' = Some 0"
    by (simp_all add: zeros)
  show ?thesis
    by (intro conjI)
      (fact mono vals rest [THEN conjunct1] rest [THEN conjunct2, THEN conjunct1]
         rest [THEN conjunct2, THEN conjunct2, THEN conjunct1]
         rest [THEN conjunct2, THEN conjunct2, THEN conjunct2])+
qed

end
